theory Spec2Isabelle
  imports Complex_Main
begin

section \<open>CostVariable builder of CANOE (costvariable.py)\<close>

text \<open>
  A shallow embedding of \<^verbatim>\<open>costvariable.py\<close>: the lookup helper
  \<^verbatim>\<open>_safe_base_from_cost\<close>, the price resolver \<^verbatim>\<open>_calc_value\<close> and the
  table builder \<^verbatim>\<open>build_costvariable\<close>.

  Modelling conventions.
  \<^item> A Python \<^verbatim>\<open>str\<close> is a \<open>string\<close>; names are taken to be ASCII, so
    \<^verbatim>\<open>str.lower\<close> maps \<open>A..Z\<close> to \<open>a..z\<close> and leaves every other
    character alone.
  \<^item> A Python \<^verbatim>\<open>float\<close> is a \<open>real\<close>: arithmetic is exact. Rounding,
    overflow to infinity and NaN of IEEE doubles are outside this model.
  \<^item> A Python \<^verbatim>\<open>dict\<close> is a map; \<^verbatim>\<open>d[k]\<close> on a missing key raises
    \<^verbatim>\<open>KeyError\<close>, which is the value \<open>Inl (KeyError k)\<close> here.
  \<^item> The leading underscore of the two helpers is dropped, since an Isabelle name cannot
    start with one.
\<close>

subsection \<open>Strings\<close>

definition upper_lower :: "(char \<times> char) list" where
  "upper_lower = zip ''ABCDEFGHIJKLMNOPQRSTUVWXYZ'' ''abcdefghijklmnopqrstuvwxyz''"

definition lower_char :: "char \<Rightarrow> char" where
  "lower_char c = (case map_of upper_lower c of Some d \<Rightarrow> d | None \<Rightarrow> c)"

text \<open>\<^verbatim>\<open>s.lower()\<close>\<close>

definition lower :: "string \<Rightarrow> string" where
  "lower s = map lower_char s"

text \<open>\<^verbatim>\<open>s.startswith(p)\<close>, used to define the substring test.\<close>

fun startswith :: "string \<Rightarrow> string \<Rightarrow> bool" where
  "startswith s [] = True"
| "startswith [] (p # ps) = False"
| "startswith (c # cs) (p # ps) = (c = p \<and> startswith cs ps)"

text \<open>\<^verbatim>\<open>sub in s\<close> on strings: \<open>sub\<close> occurs in \<open>s\<close> as a contiguous block.\<close>

fun substr_in :: "string \<Rightarrow> string \<Rightarrow> bool" where
  "substr_in sub [] = (sub = [])"
| "substr_in sub (c # cs) = (startswith (c # cs) sub \<or> substr_in sub cs)"

text \<open>
  The characters \<^verbatim>\<open>str.strip()\<close> removes, among ASCII: tab, line feed, vertical tab,
  form feed, carriage return, the four separators \<open>0x1C..0x1F\<close> and the space.
\<close>

definition is_space :: "char \<Rightarrow> bool" where
  "is_space c = (c \<in> set [CHR 0x09, CHR 0x0A, CHR 0x0B, CHR 0x0C, CHR 0x0D,
                            CHR 0x1C, CHR 0x1D, CHR 0x1E, CHR 0x1F, CHR '' ''])"

text \<open>\<^verbatim>\<open>s.strip()\<close>\<close>

definition strip :: "string \<Rightarrow> string" where
  "strip s = rev (dropWhile is_space (rev (dropWhile is_space s)))"

subsection \<open>Errors and dictionaries\<close>

datatype error = KeyError string | ValueError

text \<open>\<^verbatim>\<open>d[k]\<close>\<close>

definition getitem :: "(string \<rightharpoonup> 'a) \<Rightarrow> string \<Rightarrow> error + 'a" where
  "getitem d k = (case d k of None \<Rightarrow> Inl (KeyError k) | Some v \<Rightarrow> Inr v)"

text \<open>Sequencing of two steps, the first of which may raise.\<close>

definition and_then :: "error + 'a \<Rightarrow> ('a \<Rightarrow> error + 'b) \<Rightarrow> error + 'b" where
  "and_then m f = (case m of Inl e \<Rightarrow> Inl e | Inr v \<Rightarrow> f v)"

subsection \<open>The Raw Cost Table and the base-price lookup\<close>

text \<open>
  A row of \<^verbatim>\<open>cost_df\<close> after the coercions at the head of
  \<^verbatim>\<open>build_costvariable\<close>: columns \<^verbatim>\<open>period\<close> (int), \<^verbatim>\<open>Tech Name\<close> (str)
  and \<^verbatim>\<open>value\<close> (float).
\<close>

record cost_row =
  cr_period :: int
  cr_tech_name :: string
  cr_value :: real

text \<open>
  \<^verbatim>\<open>_safe_base_from_cost(cost_df, period_val, tech_name, warn_label=...)\<close>: the rows
  with this period and this name are selected; with none the function prints a warning
  and returns \<open>0.0\<close>, otherwise it returns the value of the first one. The warning goes
  to standard output and changes no value, so the label and the print are not modelled.
\<close>

definition safe_base_from_cost :: "cost_row list \<Rightarrow> int \<Rightarrow> string \<Rightarrow> real" where
  "safe_base_from_cost cost_df period_val tech_name =
     (case filter (\<lambda>r. cr_period r = period_val \<and> cr_tech_name r = tech_name) cost_df of
        [] \<Rightarrow> 0
      | r # _ \<Rightarrow> cr_value r)"

subsection \<open>The price resolver\<close>

text \<open>
  \<^verbatim>\<open>_calc_value\<close>, branch by branch in the order of the source. Only the two
  configuration branches can raise (a key missing from \<^verbatim>\<open>cfg\<close>).
\<close>

definition calc_value ::
  "string \<Rightarrow> string \<Rightarrow> int \<Rightarrow> cost_row list \<Rightarrow> (string \<rightharpoonup> real) \<Rightarrow>
   real \<Rightarrow> real \<Rightarrow> real \<Rightarrow> real \<Rightarrow> real \<Rightarrow> real \<Rightarrow> real \<Rightarrow> error + real" where
  "calc_value tech tech_name period_val cost_df cfg mmbtuconvertor currencyadjustment
     defl22 defl25 eth_price rdsl_price spk_price =
    (let tname_lower = lower tech_name in
     if substr_in ''bio'' tname_lower \<or> substr_in ''wood'' tname_lower then
       and_then (getitem cfg ''b_price'')
         (\<lambda>b. Inr (((b * mmbtuconvertor) * currencyadjustment) * defl22))
     else if substr_in ''u_nat'' tname_lower \<or> substr_in ''u_enr'' tname_lower then
       and_then (getitem cfg ''u_price'')
         (\<lambda>u. Inr (((u * mmbtuconvertor) * currencyadjustment) * defl22))
     else if substr_in ''eth'' tname_lower then Inr eth_price
     else if substr_in ''rdsl'' tname_lower then Inr rdsl_price
     else if substr_in ''spk'' tname_lower then Inr spk_price
     else if list_ex (\<lambda>x. substr_in x tname_lower) [''lng'', ''cng'', ''ngl''] then
       (let proxy = (if list_ex (\<lambda>x. substr_in x tname_lower) [''lng'', ''cng'']
                     then ''T_ng'' else ''I_prop'');
            base = safe_base_from_cost cost_df period_val proxy
        in Inr ((((base * mmbtuconvertor) * currencyadjustment) * defl25) * 0.89))
     else if substr_in ''lpg'' tname_lower then
       (let proxy = (if tname_lower = ''f_r_lpg'' then ''R_prop'' else ''T_prop'');
            base = safe_base_from_cost cost_df period_val proxy
        in Inr (((base * mmbtuconvertor) * currencyadjustment) * defl25))
     else if substr_in ''e_coal'' tname_lower then
       (let base = safe_base_from_cost cost_df period_val ''I_coal''
        in Inr (((base * mmbtuconvertor) * currencyadjustment) * defl25))
     else if substr_in ''e_gsl'' tname_lower then
       (let base = safe_base_from_cost cost_df period_val ''T_gsl''
        in Inr (((base * mmbtuconvertor) * currencyadjustment) * defl25))
     else if substr_in ''r_oil'' tname_lower then
       (let base = safe_base_from_cost cost_df period_val ''C_oil''
        in Inr (((base * mmbtuconvertor) * currencyadjustment) * defl25))
     else if substr_in ''c_h2'' tname_lower \<or> substr_in ''r_h2'' tname_lower then
       (let base = safe_base_from_cost cost_df period_val ''I_h2''
        in Inr (((base * mmbtuconvertor) * currencyadjustment) * defl25))
     else if substr_in ''i_pcoke'' tname_lower \<or> substr_in ''i_coke'' tname_lower then
       (let base = safe_base_from_cost cost_df period_val ''I_coal''
        in Inr (((base * mmbtuconvertor) * currencyadjustment) * defl25))
     else if substr_in ''a_gsl'' tname_lower then
       (let base = safe_base_from_cost cost_df period_val ''T_gsl''
        in Inr (((base * mmbtuconvertor) * currencyadjustment) * defl25))
     else if substr_in ''a_ng'' tname_lower then
       (let base = safe_base_from_cost cost_df period_val ''I_ng''
        in Inr (((base * mmbtuconvertor) * currencyadjustment) * defl25))
     else if substr_in ''a_dsl'' tname_lower then
       (let base = safe_base_from_cost cost_df period_val ''T_dsl''
        in Inr (((base * mmbtuconvertor) * currencyadjustment) * defl25))
     else if substr_in ''a_prop'' tname_lower then
       (let base = safe_base_from_cost cost_df period_val ''T_prop''
        in Inr (((base * mmbtuconvertor) * currencyadjustment) * defl25))
     else if substr_in ''mdo'' tname_lower then
       (let base = safe_base_from_cost cost_df period_val ''T_dsl''
        in Inr ((((base * mmbtuconvertor) * currencyadjustment) * defl25) * 0.9))
     else
       (let base = safe_base_from_cost cost_df period_val tech_name
        in Inr (((base * mmbtuconvertor) * currencyadjustment) * defl25)))"

text \<open>
  The name \<^verbatim>\<open>_calc_value\<close> hands to \<^verbatim>\<open>_safe_base_from_cost\<close> in the branch it
  takes: the proxy of that branch, the technical name itself in the last one, and
  \<open>None\<close> in the five branches that read no row of the cost table.
\<close>

definition lookup_name :: "string \<Rightarrow> string option" where
  "lookup_name tech_name =
    (let tname_lower = lower tech_name in
     if substr_in ''bio'' tname_lower \<or> substr_in ''wood'' tname_lower then None
     else if substr_in ''u_nat'' tname_lower \<or> substr_in ''u_enr'' tname_lower then None
     else if substr_in ''eth'' tname_lower then None
     else if substr_in ''rdsl'' tname_lower then None
     else if substr_in ''spk'' tname_lower then None
     else if list_ex (\<lambda>x. substr_in x tname_lower) [''lng'', ''cng'', ''ngl''] then
       Some (if list_ex (\<lambda>x. substr_in x tname_lower) [''lng'', ''cng'']
             then ''T_ng'' else ''I_prop'')
     else if substr_in ''lpg'' tname_lower then
       Some (if tname_lower = ''f_r_lpg'' then ''R_prop'' else ''T_prop'')
     else if substr_in ''e_coal'' tname_lower then Some ''I_coal''
     else if substr_in ''e_gsl'' tname_lower then Some ''T_gsl''
     else if substr_in ''r_oil'' tname_lower then Some ''C_oil''
     else if substr_in ''c_h2'' tname_lower \<or> substr_in ''r_h2'' tname_lower then Some ''I_h2''
     else if substr_in ''i_pcoke'' tname_lower \<or> substr_in ''i_coke'' tname_lower
       then Some ''I_coal''
     else if substr_in ''a_gsl'' tname_lower then Some ''T_gsl''
     else if substr_in ''a_ng'' tname_lower then Some ''I_ng''
     else if substr_in ''a_dsl'' tname_lower then Some ''T_dsl''
     else if substr_in ''a_prop'' tname_lower then Some ''T_prop''
     else if substr_in ''mdo'' tname_lower then Some ''T_dsl''
     else Some tech_name)"

subsection \<open>The cascade as the specification words it\<close>

text \<open>
  The specification describes the resolver as an ordered, first-match-wins cascade of
  eighteen rules. The definitions of this subsection follow its words, not the source;
  they are compared with \<open>calc_value\<close> below.
\<close>

datatype category =
    Biomass | Uranium | Ethanol | RenewableDiesel | SyntheticFuel | LngCngNgl | Lpg
  | ECoal | EGsl | ROil | Hydrogen | Coke | AGsl | ANg | ADsl | AProp | Mdo | Default

fun tokens :: "category \<Rightarrow> string list" where
  "tokens Biomass = [''bio'', ''wood'']"
| "tokens Uranium = [''u_nat'', ''u_enr'']"
| "tokens Ethanol = [''eth'']"
| "tokens RenewableDiesel = [''rdsl'']"
| "tokens SyntheticFuel = [''spk'']"
| "tokens LngCngNgl = [''lng'', ''cng'', ''ngl'']"
| "tokens Lpg = [''lpg'']"
| "tokens ECoal = [''e_coal'']"
| "tokens EGsl = [''e_gsl'']"
| "tokens ROil = [''r_oil'']"
| "tokens Hydrogen = [''c_h2'', ''r_h2'']"
| "tokens Coke = [''i_pcoke'', ''i_coke'']"
| "tokens AGsl = [''a_gsl'']"
| "tokens ANg = [''a_ng'']"
| "tokens ADsl = [''a_dsl'']"
| "tokens AProp = [''a_prop'']"
| "tokens Mdo = [''mdo'']"
| "tokens Default = []"

text \<open>The precedence of the rules; the default rule is what is left.\<close>

definition precedence :: "category list" where
  "precedence = [Biomass, Uranium, Ethanol, RenewableDiesel, SyntheticFuel, LngCngNgl, Lpg,
                 ECoal, EGsl, ROil, Hydrogen, Coke, AGsl, ANg, ADsl, AProp, Mdo]"

definition category_matches :: "category \<Rightarrow> string \<Rightarrow> bool" where
  "category_matches c technical_name =
     list_ex (\<lambda>t. substr_in t (lower technical_name)) (tokens c)"

definition first_match :: "string \<Rightarrow> category" where
  "first_match technical_name =
     (case find (\<lambda>c. category_matches c technical_name) precedence of
        Some c \<Rightarrow> c
      | None \<Rightarrow> Default)"

text \<open>The conversion chain of the specification.\<close>

definition chain :: "real \<Rightarrow> real \<Rightarrow> real \<Rightarrow> real \<Rightarrow> real" where
  "chain base_price btu_factor currency_factor deflator =
     ((base_price * btu_factor) * currency_factor) * deflator"

record price_factors =
  btu_factor :: real
  currency_factor :: real
  deflator_2022 :: real
  deflator_2025 :: real
  ethanol_price :: real
  renewable_diesel_price :: real
  synthetic_fuel_price :: real

text \<open>The proxy of a rule that looks a base price up, and its price through the chain.\<close>

definition proxy_price ::
  "string \<Rightarrow> int \<Rightarrow> cost_row list \<Rightarrow> price_factors \<Rightarrow> real" where
  "proxy_price proxy p cost_table fs =
     chain (safe_base_from_cost cost_table p proxy) (btu_factor fs) (currency_factor fs)
       (deflator_2025 fs)"

text \<open>What each rule resolves to, rule by rule as the specification lists them.\<close>

fun rule_price ::
  "category \<Rightarrow> string \<Rightarrow> int \<Rightarrow> cost_row list \<Rightarrow> (string \<rightharpoonup> real) \<Rightarrow>
   price_factors \<Rightarrow> error + real" where
  "rule_price Biomass n p cost_table config fs =
     and_then (getitem config ''b_price'')
       (\<lambda>b. Inr (chain b (btu_factor fs) (currency_factor fs) (deflator_2022 fs)))"
| "rule_price Uranium n p cost_table config fs =
     and_then (getitem config ''u_price'')
       (\<lambda>u. Inr (chain u (btu_factor fs) (currency_factor fs) (deflator_2022 fs)))"
| "rule_price Ethanol n p cost_table config fs = Inr (ethanol_price fs)"
| "rule_price RenewableDiesel n p cost_table config fs = Inr (renewable_diesel_price fs)"
| "rule_price SyntheticFuel n p cost_table config fs = Inr (synthetic_fuel_price fs)"
| "rule_price LngCngNgl n p cost_table config fs =
     Inr (proxy_price
            (if substr_in ''lng'' (lower n) \<or> substr_in ''cng'' (lower n)
             then ''T_ng'' else ''I_prop'') p cost_table fs * 0.89)"
| "rule_price Lpg n p cost_table config fs =
     Inr (proxy_price (if lower n = ''f_r_lpg'' then ''R_prop'' else ''T_prop'')
            p cost_table fs)"
| "rule_price ECoal n p cost_table config fs = Inr (proxy_price ''I_coal'' p cost_table fs)"
| "rule_price EGsl n p cost_table config fs = Inr (proxy_price ''T_gsl'' p cost_table fs)"
| "rule_price ROil n p cost_table config fs = Inr (proxy_price ''C_oil'' p cost_table fs)"
| "rule_price Hydrogen n p cost_table config fs = Inr (proxy_price ''I_h2'' p cost_table fs)"
| "rule_price Coke n p cost_table config fs = Inr (proxy_price ''I_coal'' p cost_table fs)"
| "rule_price AGsl n p cost_table config fs = Inr (proxy_price ''T_gsl'' p cost_table fs)"
| "rule_price ANg n p cost_table config fs = Inr (proxy_price ''I_ng'' p cost_table fs)"
| "rule_price ADsl n p cost_table config fs = Inr (proxy_price ''T_dsl'' p cost_table fs)"
| "rule_price AProp n p cost_table config fs = Inr (proxy_price ''T_prop'' p cost_table fs)"
| "rule_price Mdo n p cost_table config fs =
     Inr (proxy_price ''T_dsl'' p cost_table fs * 0.9)"
| "rule_price Default n p cost_table config fs = Inr (proxy_price n p cost_table fs)"

text \<open>The resolver of the specification: the rule that matches first decides.\<close>

definition resolve_price ::
  "string \<Rightarrow> int \<Rightarrow> cost_row list \<Rightarrow> (string \<rightharpoonup> real) \<Rightarrow> price_factors \<Rightarrow> error + real" where
  "resolve_price technical_name p cost_table config fs =
     rule_price (first_match technical_name) technical_name p cost_table config fs"

subsection \<open>Tables\<close>

text \<open>
  A pandas \<^verbatim>\<open>DataFrame\<close>: its column labels, in order, and its rows, each the list
  of the cells under those columns. The row index is not modelled
  (\<^verbatim>\<open>ignore_index=True\<close> renumbers it).
\<close>

record 'c dataframe =
  df_columns :: "string list"
  df_rows :: "'c list list"

text \<open>A cell of the output table: a string, an int or a float.\<close>

datatype cell = SCell string | ICell int | FCell real

text \<open>The cell of a row under a column label, the first one if the label repeats.\<close>

definition cell_at :: "string list \<Rightarrow> 'c list \<Rightarrow> string \<Rightarrow> 'c option" where
  "cell_at cols row col = map_of (zip cols row) col"

text \<open>
  \<^verbatim>\<open>Index.duplicated()\<close>: for each label, whether it occurred earlier in the index;
  \<open>seen\<close> holds the labels passed so far.
\<close>

fun duplicated :: "string list \<Rightarrow> string list \<Rightarrow> bool list" where
  "duplicated seen [] = []"
| "duplicated seen (c # cs) = (c \<in> set seen) # duplicated (c # seen) cs"

text \<open>Selection of the positions a boolean mask marks.\<close>

definition select_mask :: "bool list \<Rightarrow> 'a list \<Rightarrow> 'a list" where
  "select_mask marks xs = map snd (filter fst (zip marks xs))"

text \<open>\<^verbatim>\<open>fuel_df.loc[:, ~fuel_df.columns.duplicated()].copy()\<close>\<close>

definition drop_duplicated_columns :: "'c dataframe \<Rightarrow> 'c dataframe" where
  "drop_duplicated_columns df =
     (let keep = map Not (duplicated [] (df_columns df))
      in \<lparr>df_columns = select_mask keep (df_columns df),
          df_rows = map (select_mask keep) (df_rows df)\<rparr>)"

text \<open>\<^verbatim>\<open>if col not in fuel_df.columns: fuel_df[col] = ""\<close>\<close>

definition ensure_column :: "string \<Rightarrow> string dataframe \<Rightarrow> string dataframe" where
  "ensure_column col df =
     (if col \<in> set (df_columns df) then df
      else \<lparr>df_columns = df_columns df @ [col],
            df_rows = map (\<lambda>row. row @ ['''']) (df_rows df)\<rparr>)"

text \<open>
  The notes and the source of a technical name: the first row of the fuel table whose
  \<^verbatim>\<open>Commodity\<close> is the name, empty strings when there is none (or the column is
  not there).
\<close>

definition fuel_notes :: "string dataframe \<Rightarrow> string \<Rightarrow> string \<times> string" where
  "fuel_notes fuel tech_name =
     (case filter (\<lambda>row. cell_at (df_columns fuel) row ''Commodity'' = Some tech_name)
             (df_rows fuel) of
        [] \<Rightarrow> ('''', '''')
      | row # _ \<Rightarrow>
          (case cell_at (df_columns fuel) row ''notes'' of Some v \<Rightarrow> v | None \<Rightarrow> '''',
           case cell_at (df_columns fuel) row ''source'' of Some v \<Rightarrow> v | None \<Rightarrow> ''''))"

subsection \<open>The table builder\<close>

text \<open>
  The objects \<^verbatim>\<open>build_costvariable\<close> is called with. The function is modelled as a
  step on this state, so that what it writes and what it only reads can be told apart.
\<close>

record state =
  comb_dict :: "string \<rightharpoonup> cell dataframe"
  cost_df :: "cost_row list"
  tech_list :: "string list"
  mapping :: "string \<rightharpoonup> (string \<rightharpoonup> string)"
  province_list :: "string list"
  periods :: "int list"
  dict_id :: "string \<rightharpoonup> string"
  factors :: "string \<rightharpoonup> real"
  fuel_df :: "string dataframe"
  cfg :: "string \<rightharpoonup> real"

text \<open>
  \<^verbatim>\<open>any(x in tech for x in ['F_IMP', 'ELC', 'OTH'])\<close>: the test runs on the raw
  identifier, which is not lowercased first.
\<close>

definition excluded :: "string \<Rightarrow> bool" where
  "excluded tech = list_ex (\<lambda>x. substr_in x tech) [''F_IMP'', ''ELC'', ''OTH'']"

text \<open>
  The body of the innermost loop, in the order Python evaluates it: the display name
  from the mapping, the seven factors, the price, the notes, and last
  \<^verbatim>\<open>dict_id[pro]\<close> while the row is put together. \<open>cdf\<close> and \<open>fuel\<close> are the
  function's local copies of the cost table and the fuel table.
\<close>

definition make_row ::
  "state \<Rightarrow> cost_row list \<Rightarrow> string dataframe \<Rightarrow> string \<Rightarrow> int \<Rightarrow> int \<Rightarrow> string \<Rightarrow>
   error + cell list" where
  "make_row s cdf fuel pro vint per tech =
     and_then (getitem (mapping s) tech) (\<lambda>m.
     and_then (getitem m ''output'') (\<lambda>out.
     let tech_name = strip out in
     and_then (getitem (factors s) ''mmbtuconvertor'') (\<lambda>mmbtuconvertor.
     and_then (getitem (factors s) ''currencyadjustment'') (\<lambda>currencyadjustment.
     and_then (getitem (factors s) ''deflation_2022'') (\<lambda>defl22.
     and_then (getitem (factors s) ''deflation_2025'') (\<lambda>defl25.
     and_then (getitem (factors s) ''eth_price'') (\<lambda>eth_price.
     and_then (getitem (factors s) ''rdsl_price'') (\<lambda>rdsl_price.
     and_then (getitem (factors s) ''spk_price'') (\<lambda>spk_price.
     and_then (calc_value tech tech_name per cdf (cfg s) mmbtuconvertor currencyadjustment
                 defl22 defl25 eth_price rdsl_price spk_price) (\<lambda>val.
     let unit = ''2020 M$/PJ'';
         (notes, ref) = fuel_notes fuel tech_name
     in
     and_then (getitem (dict_id s) pro) (\<lambda>data_id.
     Inr [SCell pro, ICell per, SCell tech, ICell vint, FCell val, SCell unit,
          SCell notes, SCell ref, ICell 2, ICell 3, ICell 2, ICell 1, ICell 1,
          SCell data_id])))))))))))"

text \<open>
  The four nested loops, innermost first. Each takes the rows gathered so far and
  returns them extended, or the error that stopped it.
\<close>

fun tech_loop ::
  "state \<Rightarrow> cost_row list \<Rightarrow> string dataframe \<Rightarrow> string \<Rightarrow> int \<Rightarrow> int \<Rightarrow> string list \<Rightarrow>
   cell list list \<Rightarrow> error + cell list list" where
  "tech_loop s cdf fuel pro vint per [] rows = Inr rows"
| "tech_loop s cdf fuel pro vint per (tech # techs) rows =
     (if excluded tech then tech_loop s cdf fuel pro vint per techs rows
      else and_then (make_row s cdf fuel pro vint per tech)
             (\<lambda>row. tech_loop s cdf fuel pro vint per techs (rows @ [row])))"

fun per_loop ::
  "state \<Rightarrow> cost_row list \<Rightarrow> string dataframe \<Rightarrow> string \<Rightarrow> int \<Rightarrow> int list \<Rightarrow>
   cell list list \<Rightarrow> error + cell list list" where
  "per_loop s cdf fuel pro vint [] rows = Inr rows"
| "per_loop s cdf fuel pro vint (per # pers) rows =
     (if per < vint then per_loop s cdf fuel pro vint pers rows
      else and_then (tech_loop s cdf fuel pro vint per (tech_list s) rows)
             (\<lambda>rows'. per_loop s cdf fuel pro vint pers rows'))"

fun vint_loop ::
  "state \<Rightarrow> cost_row list \<Rightarrow> string dataframe \<Rightarrow> string \<Rightarrow> int list \<Rightarrow>
   cell list list \<Rightarrow> error + cell list list" where
  "vint_loop s cdf fuel pro [] rows = Inr rows"
| "vint_loop s cdf fuel pro (vint # vints) rows =
     and_then (per_loop s cdf fuel pro vint (periods s) rows)
       (\<lambda>rows'. vint_loop s cdf fuel pro vints rows')"

fun pro_loop ::
  "state \<Rightarrow> cost_row list \<Rightarrow> string dataframe \<Rightarrow> string list \<Rightarrow>
   cell list list \<Rightarrow> error + cell list list" where
  "pro_loop s cdf fuel [] rows = Inr rows"
| "pro_loop s cdf fuel (pro # pros) rows =
     (if pro = ''CAN'' then pro_loop s cdf fuel pros rows
      else and_then (vint_loop s cdf fuel pro (periods s) rows)
             (\<lambda>rows'. pro_loop s cdf fuel pros rows'))"

text \<open>
  The function's local copy of the fuel table: duplicated columns dropped, and the
  three metadata columns added, empty, where they are missing.
\<close>

definition fuel_copy :: "string dataframe \<Rightarrow> string dataframe" where
  "fuel_copy fuel =
     ensure_column ''source'' (ensure_column ''notes''
       (ensure_column ''Commodity'' (drop_duplicated_columns fuel)))"

text \<open>
  The function up to the end of the loops: the copy of the cost table (its coercions
  change nothing on typed rows), the copy of the fuel table, and the rows the loops
  gather from the empty list.
\<close>

definition new_rows :: "state \<Rightarrow> error + cell list list" where
  "new_rows s =
     (let cdf = cost_df s;
          fuel = fuel_copy (fuel_df s)
      in pro_loop s cdf fuel (province_list s) [])"

text \<open>
  \<^verbatim>\<open>pd.DataFrame(rows, columns=cols)\<close> on a non-empty list of rows: pandas raises
  \<^verbatim>\<open>ValueError\<close> unless every row has as many cells as there are columns.
\<close>

definition DataFrame :: "'c list list \<Rightarrow> string list \<Rightarrow> error + 'c dataframe" where
  "DataFrame rows cols =
     (if list_all (\<lambda>row. length row = length cols) rows
      then Inr \<lparr>df_columns = cols, df_rows = rows\<rparr>
      else Inl ValueError)"

text \<open>
  \<^verbatim>\<open>pd.concat([a, b], ignore_index=True)\<close> of two frames with the same columns: the
  columns of the first, the rows of the first and then those of the second.
\<close>

definition concat_frames :: "'c dataframe \<Rightarrow> 'c dataframe \<Rightarrow> 'c dataframe" where
  "concat_frames a b = \<lparr>df_columns = df_columns a, df_rows = df_rows a @ df_rows b\<rparr>"

text \<open>
  \<^verbatim>\<open>build_costvariable\<close>: what it returns or raises, and the state it leaves. The
  one assignment to \<^verbatim>\<open>comb_dict\<close> is its last statement, so a call that raises
  leaves the state as it found it.
\<close>

definition build_costvariable ::
  "state \<Rightarrow> (error + (string \<rightharpoonup> cell dataframe)) \<times> state" where
  "build_costvariable s =
     (case new_rows s of
        Inl e \<Rightarrow> (Inl e, s)
      | Inr rows \<Rightarrow>
          if rows \<noteq> [] then
            (case getitem (comb_dict s) ''CostVariable'' of
               Inl e \<Rightarrow> (Inl e, s)
             | Inr old \<Rightarrow>
                 (case DataFrame rows (df_columns old) of
                    Inl e \<Rightarrow> (Inl e, s)
                  | Inr new_df \<Rightarrow>
                      (let s' = s\<lparr>comb_dict :=
                                   (comb_dict s)(''CostVariable'' \<mapsto> concat_frames old new_df)\<rparr>
                       in (Inr (comb_dict s'), s'))))
          else (Inr (comb_dict s), s))"

subsection \<open>Reading the rows\<close>

text \<open>The region, period, technology and vintage of an output row.\<close>

fun row_key :: "cell list \<Rightarrow> (string \<times> int \<times> string \<times> int) option" where
  "row_key (SCell region # ICell per # SCell tech # ICell vint # rest) =
     Some (region, per, tech, vint)"
| "row_key row = None"

text \<open>The price of an output row, its fifth cell.\<close>

fun row_value :: "cell list \<Rightarrow> real option" where
  "row_value (c1 # c2 # c3 # c4 # FCell v # rest) = Some v"
| "row_value row = None"

text \<open>
  The combinations the loops visit, in their order: region, then vintage, then period,
  then technology; one function for each loop, innermost first.
\<close>

type_synonym combination = "string \<times> int \<times> string \<times> int"

definition tech_keys :: "string \<Rightarrow> int \<Rightarrow> int \<Rightarrow> string list \<Rightarrow> combination list" where
  "tech_keys pro vint per techs =
     map (\<lambda>tech. (pro, per, tech, vint)) (filter (\<lambda>tech. \<not> excluded tech) techs)"

definition per_keys :: "state \<Rightarrow> string \<Rightarrow> int \<Rightarrow> int list \<Rightarrow> combination list" where
  "per_keys s pro vint pers =
     concat (map (\<lambda>per. tech_keys pro vint per (tech_list s))
               (filter (\<lambda>per. \<not> per < vint) pers))"

definition vint_keys :: "state \<Rightarrow> string \<Rightarrow> int list \<Rightarrow> combination list" where
  "vint_keys s pro vints = concat (map (\<lambda>vint. per_keys s pro vint (periods s)) vints)"

definition pro_keys :: "state \<Rightarrow> string list \<Rightarrow> combination list" where
  "pro_keys s pros =
     concat (map (\<lambda>pro. vint_keys s pro (periods s)) (filter (\<lambda>pro. pro \<noteq> ''CAN'') pros))"

definition combinations :: "state \<Rightarrow> combination list" where
  "combinations s = pro_keys s (province_list s)"

text \<open>The row the loop body makes for a combination.\<close>

definition emitted_for ::
  "state \<Rightarrow> cost_row list \<Rightarrow> string dataframe \<Rightarrow> combination \<Rightarrow> cell list \<Rightarrow> bool" where
  "emitted_for s cdf fuel k row =
     (case k of (pro, per, tech, vint) \<Rightarrow> make_row s cdf fuel pro vint per tech = Inr row)"

subsection \<open>Concrete inputs\<close>

text \<open>The fourteen columns of the \<^verbatim>\<open>CostVariable\<close> table.\<close>

definition cv_columns :: "string list" where
  "cv_columns = [''region'', ''period'', ''tech'', ''vintage'', ''value'', ''unit'', ''notes'',
                 ''source'', ''dq_cred'', ''dq_geo'', ''dq_str'', ''dq_tech'', ''dq_time'',
                 ''data_id'']"

text \<open>A row that is in the output table before the pass.\<close>

definition prior_row :: "cell list" where
  "prior_row = [SCell ''QC'', ICell 2020, SCell ''E_HYD'', ICell 2020, FCell 1.5,
                SCell ''2020 M$/PJ'', SCell [], SCell [], ICell 2, ICell 3, ICell 2,
                ICell 1, ICell 1, SCell ''QCid'']"

text \<open>
  A small well-formed input: the region list holds the placeholder \<open>CAN\<close> and one
  region, there are two periods, and the catalog holds a diesel technology, an
  electricity technology (excluded) and one whose identifier has \<open>elc\<close> in lower case
  only.
\<close>

definition example_state :: state where
  "example_state =
     \<lparr>comb_dict = [''CostVariable'' \<mapsto> \<lparr>df_columns = cv_columns, df_rows = [prior_row]\<rparr>,
                   ''Efficiency'' \<mapsto> \<lparr>df_columns = [''region''], df_rows = [[SCell ''ON'']]\<rparr>],
      cost_df = [\<lparr>cr_period = 2030, cr_tech_name = ''T_dsl'', cr_value = 10\<rparr>],
      tech_list = [''F_T_DSL'', ''F_ELC'', ''F_elc_wood''],
      mapping = [''F_T_DSL'' \<mapsto> [''output'' \<mapsto> '' T_dsl ''],
                 ''F_elc_wood'' \<mapsto> [''output'' \<mapsto> ''Wood'']],
      province_list = [''CAN'', ''ON''],
      periods = [2025, 2030],
      dict_id = [''ON'' \<mapsto> ''ONid''],
      factors = [''mmbtuconvertor'' \<mapsto> 1.1, ''currencyadjustment'' \<mapsto> 1.05,
                 ''deflation_2022'' \<mapsto> 0.9, ''deflation_2025'' \<mapsto> 0.95,
                 ''eth_price'' \<mapsto> 1, ''rdsl_price'' \<mapsto> 2, ''spk_price'' \<mapsto> 3],
      fuel_df = \<lparr>df_columns = [''Commodity'', ''notes''], df_rows = [[''T_dsl'', ''EIA'']]\<rparr>,
      cfg = [''b_price'' \<mapsto> 4, ''u_price'' \<mapsto> 5]\<rparr>"

text \<open>The rows the pass makes from \<open>example_state\<close>.\<close>

definition example_row :: "int \<Rightarrow> string \<Rightarrow> int \<Rightarrow> real \<Rightarrow> string \<Rightarrow> cell list" where
  "example_row per tech vint v notes =
     [SCell ''ON'', ICell per, SCell tech, ICell vint, FCell v, SCell ''2020 M$/PJ'',
      SCell notes, SCell [], ICell 2, ICell 3, ICell 2, ICell 1, ICell 1, SCell ''ONid'']"

definition example_rows :: "cell list list" where
  "example_rows =
     [example_row 2025 ''F_T_DSL'' 2025 0 ''EIA'',
      example_row 2025 ''F_elc_wood'' 2025 4.158 [],
      example_row 2030 ''F_T_DSL'' 2025 10.9725 ''EIA'',
      example_row 2030 ''F_elc_wood'' 2025 4.158 [],
      example_row 2030 ''F_T_DSL'' 2030 10.9725 ''EIA'',
      example_row 2030 ''F_elc_wood'' 2030 4.158 []]"

text \<open>The same input with the region \<open>ON\<close> listed twice, one period and one technology.\<close>

definition repeated_region_state :: state where
  "repeated_region_state =
     example_state\<lparr>province_list := [''ON'', ''ON''], periods := [2030],
                    tech_list := [''F_T_DSL'']\<rparr>"

text \<open>
  An input with no period, whose one technology is not in the name mapping and whose one
  region is not in the region map.
\<close>

definition no_period_state :: state where
  "no_period_state =
     example_state\<lparr>periods := [], tech_list := [''F_T_DSL''], mapping := Map.empty,
                    province_list := [''ON''], dict_id := Map.empty\<rparr>"

text \<open>Inputs that lack an entry while combinations are enumerated.\<close>

definition unmapped_tech_state :: state where
  "unmapped_tech_state = example_state\<lparr>tech_list := [''F_T_DSL'', ''F_T_GSL'']\<rparr>"

definition unmapped_region_state :: state where
  "unmapped_region_state = example_state\<lparr>province_list := [''ON'', ''QC'']\<rparr>"

section \<open>Properties\<close>

subsection \<open>Helper lemmas on strings, errors and the lookup\<close>

lemma lower_char_idem: "lower_char (lower_char c) = lower_char c"
  by (auto simp: lower_char_def upper_lower_def split: option.splits if_splits)

lemma and_then_simps:
  "and_then (Inl e) f = Inl e" "and_then (Inr v) f = f v"
  by (simp_all add: and_then_def)

lemmas lower_eval = lower_def lower_char_def upper_lower_def

lemma lower_lower: "lower (lower s) = lower s"
  by (simp add: lower_def lower_char_idem)

text \<open>The substring test finds exactly the contiguous occurrences.\<close>

lemma startswith_iff: "startswith s p \<longleftrightarrow> (\<exists>ss. s = p @ ss)"
  by (induction s p rule: startswith.induct) auto

lemma substr_in_iff: "substr_in sub s \<longleftrightarrow> (\<exists>ps ss. s = ps @ sub @ ss)"
proof (induction s)
  case Nil
  then show ?case by auto
next
  case (Cons c cs)
  have "(\<exists>ps ss. c # cs = ps @ sub @ ss) \<longleftrightarrow>
        (\<exists>ss. c # cs = sub @ ss) \<or> (\<exists>ps ss. cs = ps @ sub @ ss)"
  proof
    assume "\<exists>ps ss. c # cs = ps @ sub @ ss"
    then obtain ps ss where e: "c # cs = ps @ sub @ ss" by blast
    show "(\<exists>ss. c # cs = sub @ ss) \<or> (\<exists>ps ss. cs = ps @ sub @ ss)"
    proof (cases ps)
      case Nil
      with e show ?thesis by auto
    next
      case (Cons a as)
      with e have "cs = as @ sub @ ss" by simp
      then show ?thesis by blast
    qed
  next
    assume "(\<exists>ss. c # cs = sub @ ss) \<or> (\<exists>ps ss. cs = ps @ sub @ ss)"
    then show "\<exists>ps ss. c # cs = ps @ sub @ ss"
    proof
      assume "\<exists>ss. c # cs = sub @ ss"
      then obtain ss where "c # cs = [] @ sub @ ss" by auto
      then show ?thesis by blast
    next
      assume "\<exists>ps ss. cs = ps @ sub @ ss"
      then obtain ps ss where "c # cs = (c # ps) @ sub @ ss" by auto
      then show ?thesis by blast
    qed
  qed
  with Cons show ?case by (simp add: startswith_iff)
qed

lemma safe_base_miss:
  assumes "\<forall>r \<in> set cost. \<not> (cr_period r = p \<and> cr_tech_name r = k)"
  shows "safe_base_from_cost cost p k = 0"
proof -
  have "filter (\<lambda>r. cr_period r = p \<and> cr_tech_name r = k) cost = []"
    using assms by (simp add: filter_empty_conv)
  then show ?thesis by (simp add: safe_base_from_cost_def)
qed

lemma calc_value_zero_base:
  "lookup_name n = Some k \<longrightarrow> safe_base_from_cost cost p k = 0 \<longrightarrow>
   calc_value tech n p cost conf mm cur d_old d_new eth rdsl spk = Inr 0"
  by (simp add: calc_value_def lookup_name_def Let_def) blast


subsection \<open>The resolver against the cascade of the specification\<close>

lemma calc_value_cascade:
  "calc_value tech n p cost conf mm cur d_old d_new eth rdsl spk =
   resolve_price n p cost conf
     \<lparr>btu_factor = mm, currency_factor = cur, deflator_2022 = d_old, deflator_2025 = d_new,
      ethanol_price = eth, renewable_diesel_price = rdsl, synthetic_fuel_price = spk\<rparr>"
  by (simp add: calc_value_def resolve_price_def first_match_def precedence_def
      category_matches_def chain_def proxy_price_def Let_def)

lemma find_first:
  "(\<forall>x \<in> set before. \<not> P x) \<Longrightarrow> P c \<Longrightarrow> find P (before @ c # after) = Some c"
  by (induction before) auto

lemma first_match_bio:
  "substr_in ''bio'' (lower n) \<Longrightarrow> first_match n = Biomass"
  by (simp add: first_match_def precedence_def category_matches_def)


text \<open>
  Claim C1. For every technical name and period the resolver is the ordered,
  first-match-wins cascade of the specification: its result is the price of the first
  rule, in the order biomass/wood, uranium, ethanol, renewable diesel, spk, lng/cng/ngl,
  lpg, e_coal, e_gsl, r_oil, c_h2/r_h2, i_pcoke/i_coke, a_gsl, a_ng, a_dsl, a_prop, mdo,
  whose token occurs in the lowercased name, and of the default rule when none does. In
  particular a name whose lowercase form contains both \<open>bio\<close> and \<open>lng\<close> is
  resolved by the biomass rule and not by the lng rule.
\<close>

theorem cascade_first_match_wins:
  "calc_value tech n p cost conf mm cur d_old d_new eth rdsl spk =
     rule_price (first_match n) n p cost conf
       \<lparr>btu_factor = mm, currency_factor = cur, deflator_2022 = d_old, deflator_2025 = d_new,
        ethanol_price = eth, renewable_diesel_price = rdsl, synthetic_fuel_price = spk\<rparr>
   \<and> (\<forall>before c after.
         precedence = before @ c # after \<and> category_matches c n \<and>
         (\<forall>c' \<in> set before. \<not> category_matches c' n) \<longrightarrow> first_match n = c)
   \<and> ((\<forall>c \<in> set precedence. \<not> category_matches c n) \<longrightarrow> first_match n = Default)
   \<and> (substr_in ''bio'' (lower n) \<and> substr_in ''lng'' (lower n) \<longrightarrow>
        first_match n = Biomass \<and> first_match n \<noteq> LngCngNgl \<and>
        calc_value tech n p cost conf mm cur d_old d_new eth rdsl spk =
          and_then (getitem conf ''b_price'') (\<lambda>b. Inr (((b * mm) * cur) * d_old)))"
proof (intro conjI impI allI)
  show "calc_value tech n p cost conf mm cur d_old d_new eth rdsl spk =
     rule_price (first_match n) n p cost conf
       \<lparr>btu_factor = mm, currency_factor = cur, deflator_2022 = d_old, deflator_2025 = d_new,
        ethanol_price = eth, renewable_diesel_price = rdsl, synthetic_fuel_price = spk\<rparr>"
    by (simp add: calc_value_cascade resolve_price_def)
next
  fix before c after
  assume h: "precedence = before @ c # after \<and> category_matches c n \<and>
         (\<forall>c' \<in> set before. \<not> category_matches c' n)"
  then have p: "precedence = before @ c # after"
    by blast
  from h have f: "find (\<lambda>c. category_matches c n) (before @ c # after) = Some c"
    by (blast intro: find_first)
  show "first_match n = c"
    unfolding first_match_def p f by simp
next
  assume "\<forall>c \<in> set precedence. \<not> category_matches c n"
  then have "find (\<lambda>c. category_matches c n) precedence = None"
    by (simp add: find_None_iff)
  then show "first_match n = Default"
    by (simp add: first_match_def)
next
  assume h: "substr_in ''bio'' (lower n) \<and> substr_in ''lng'' (lower n)"
  then show "first_match n = Biomass" by (simp add: first_match_bio)
  from h show "first_match n \<noteq> LngCngNgl" by (simp add: first_match_bio)
  from h show "calc_value tech n p cost conf mm cur d_old d_new eth rdsl spk =
          and_then (getitem conf ''b_price'') (\<lambda>b. Inr (((b * mm) * cur) * d_old))"
    by (simp add: calc_value_def)
qed

theorem cascade_first_match_wins_witness:
  "substr_in ''bio'' (lower ''F_BIO_LNG'') \<and> substr_in ''lng'' (lower ''F_BIO_LNG'') \<and>
   first_match ''F_BIO_LNG'' = Biomass \<and>
   calc_value ''F1'' ''F_BIO_LNG'' 2030 [] [''b_price'' \<mapsto> 4] 1.1 1.05 0.9 0.95 1 2 3 = Inr 4.158"
  using cascade_first_match_wins [where tech = "''F1''" and n = "''F_BIO_LNG''" and p = 2030
      and cost = "[]" and conf = "[''b_price'' \<mapsto> 4]" and mm = "1.1" and cur = "1.05"
      and d_old = "0.9" and d_new = "0.95" and eth = 1 and rdsl = 2 and spk = 3]
  by (simp add: lower_eval getitem_def and_then_simps chain_def)

text \<open>
  Claim C2. When no row of the cost table has the period and the name that is looked
  up, the base-price lookup returns \<open>0\<close> and does not raise; and whenever the resolver
  looks that name up (as the proxy of its rule, or as the technical name itself in the
  default rule), its result is the value \<open>0\<close>, not an error.
\<close>

theorem missing_lookup_yields_zero:
  assumes "\<forall>r \<in> set cost. \<not> (cr_period r = p \<and> cr_tech_name r = k)"
  shows "safe_base_from_cost cost p k = 0 \<and>
         (\<forall>tech n conf mm cur d_old d_new eth rdsl spk.
            lookup_name n = Some k \<longrightarrow>
            calc_value tech n p cost conf mm cur d_old d_new eth rdsl spk = Inr 0)"
  using safe_base_miss [OF assms] calc_value_zero_base by blast

theorem missing_lookup_yields_zero_witness:
  "safe_base_from_cost [\<lparr>cr_period = 2030, cr_tech_name = ''T_dsl'', cr_value = 10\<rparr>] 2025 ''T_ng'' = 0 \<and>
   lookup_name ''F_LNG'' = Some ''T_ng'' \<and>
   calc_value ''F1'' ''F_LNG'' 2025 [\<lparr>cr_period = 2030, cr_tech_name = ''T_dsl'', cr_value = 10\<rparr>]
     Map.empty 1.1 1.05 0.9 0.95 1 2 3 = Inr 0"
  using missing_lookup_yields_zero [where cost = "[\<lparr>cr_period = 2030, cr_tech_name = ''T_dsl'', cr_value = 10\<rparr>]"
      and p = 2025 and k = "''T_ng''"]
  by (simp add: lookup_name_def lower_eval)



text \<open>
  Claim C5. For a technical name whose lowercase form contains \<open>lpg\<close> and no token
  of a rule of higher priority, the resolver looks up \<open>R_prop\<close> exactly when the
  lowercased name is \<open>f_r_lpg\<close> and \<open>T_prop\<close> otherwise, and applies the chain
  with the 2025 deflator and no further multiplier. The name \<open>F_R_LPG\<close> is resolved
  through \<open>R_prop\<close>.
\<close>

theorem lpg_rule_proxy:
  "(substr_in ''lpg'' (lower n) \<and>
    \<not> list_ex (\<lambda>t. substr_in t (lower n))
        [''bio'', ''wood'', ''u_nat'', ''u_enr'', ''eth'', ''rdsl'', ''spk'', ''lng'', ''cng'',
         ''ngl''] \<longrightarrow>
      lookup_name n = Some (if lower n = ''f_r_lpg'' then ''R_prop'' else ''T_prop'') \<and>
      calc_value tech n p cost conf mm cur d_old d_new eth rdsl spk =
        Inr (((safe_base_from_cost cost p
                 (if lower n = ''f_r_lpg'' then ''R_prop'' else ''T_prop'') * mm) * cur) * d_new))
   \<and> lookup_name ''F_R_LPG'' = Some ''R_prop''
   \<and> calc_value tech ''F_R_LPG'' p cost conf mm cur d_old d_new eth rdsl spk =
        Inr (((safe_base_from_cost cost p ''R_prop'' * mm) * cur) * d_new)"
  by (simp add: calc_value_def lookup_name_def Let_def lower_eval)

theorem lpg_rule_proxy_witness:
  "substr_in ''lpg'' (lower ''F_T_LPG'') \<and>
   \<not> list_ex (\<lambda>t. substr_in t (lower ''F_T_LPG''))
        [''bio'', ''wood'', ''u_nat'', ''u_enr'', ''eth'', ''rdsl'', ''spk'', ''lng'', ''cng'',
         ''ngl''] \<and>
   lookup_name ''F_T_LPG'' = Some ''T_prop'' \<and>
   calc_value ''F1'' ''F_T_LPG'' 2030
     [\<lparr>cr_period = 2030, cr_tech_name = ''R_prop'', cr_value = 7\<rparr>,
      \<lparr>cr_period = 2030, cr_tech_name = ''T_prop'', cr_value = 20\<rparr>]
     Map.empty 1.1 1.05 0.9 0.95 1 2 3 = Inr 21.945"
  using lpg_rule_proxy [where n = "''F_T_LPG''" and tech = "''F1''" and p = 2030
      and cost = "[\<lparr>cr_period = 2030, cr_tech_name = ''R_prop'', cr_value = 7\<rparr>,
                   \<lparr>cr_period = 2030, cr_tech_name = ''T_prop'', cr_value = 20\<rparr>]"
      and conf = Map.empty and mm = "1.1" and cur = "1.05" and d_old = "0.9" and d_new = "0.95"
      and eth = 1 and rdsl = 2 and spk = 3]
  by (simp add: lower_eval safe_base_from_cost_def)






subsection \<open>The loops\<close>

lemma make_row_shape:
  assumes "make_row s cdf fuel pro vint per tech = Inr row"
  shows "row_key row = Some (pro, per, tech, vint)" and "length row = 14"
    and "\<exists>v. row_value row = Some v"
  using assms
  by (auto simp: make_row_def and_then_def Let_def split: sum.splits prod.splits)

lemma emitted_for_simp:
  "emitted_for s cdf fuel (pro, per, tech, vint) row \<longleftrightarrow>
   make_row s cdf fuel pro vint per tech = Inr row"
  by (simp add: emitted_for_def)

lemma tech_loop_Inr:
  assumes "tech_loop s cdf fuel pro vint per techs rows = Inr rows'"
  shows "\<exists>new. rows' = rows @ new \<and>
           list_all2 (emitted_for s cdf fuel) (tech_keys pro vint per techs) new"
  using assms
proof (induction techs arbitrary: rows)
  case Nil
  then show ?case by (simp add: tech_keys_def)
next
  case (Cons tech techs)
  show ?case
  proof (cases "excluded tech")
    case True
    with Cons show ?thesis by (simp add: tech_keys_def)
  next
    case False
    with Cons.prems obtain row where
      row: "make_row s cdf fuel pro vint per tech = Inr row"
      and rest: "tech_loop s cdf fuel pro vint per techs (rows @ [row]) = Inr rows'"
      by (auto simp: and_then_def split: sum.splits)
    from Cons.IH[OF rest] obtain new where
      "rows' = (rows @ [row]) @ new"
      "list_all2 (emitted_for s cdf fuel) (tech_keys pro vint per techs) new"
      by blast
    with row False show ?thesis
      by (auto simp: tech_keys_def emitted_for_simp intro!: exI[of _ "row # new"])
  qed
qed

lemma per_loop_Inr:
  assumes "per_loop s cdf fuel pro vint pers rows = Inr rows'"
  shows "\<exists>new. rows' = rows @ new \<and>
           list_all2 (emitted_for s cdf fuel) (per_keys s pro vint pers) new"
  using assms
proof (induction pers arbitrary: rows)
  case Nil
  then show ?case by (simp add: per_keys_def)
next
  case (Cons per pers)
  show ?case
  proof (cases "per < vint")
    case True
    with Cons show ?thesis by (simp add: per_keys_def)
  next
    case False
    with Cons.prems obtain mid where
      inner: "tech_loop s cdf fuel pro vint per (tech_list s) rows = Inr mid"
      and rest: "per_loop s cdf fuel pro vint pers mid = Inr rows'"
      by (auto simp: and_then_def split: sum.splits)
    from tech_loop_Inr[OF inner] obtain new1 where
      n1: "mid = rows @ new1"
      "list_all2 (emitted_for s cdf fuel) (tech_keys pro vint per (tech_list s)) new1"
      by blast
    from Cons.IH[OF rest] obtain new2 where
      n2: "rows' = mid @ new2"
      "list_all2 (emitted_for s cdf fuel) (per_keys s pro vint pers) new2"
      by blast
    from n1 n2 False show ?thesis
      by (auto simp: per_keys_def intro!: exI[of _ "new1 @ new2"] list_all2_appendI)
  qed
qed

lemma vint_loop_Inr:
  assumes "vint_loop s cdf fuel pro vints rows = Inr rows'"
  shows "\<exists>new. rows' = rows @ new \<and>
           list_all2 (emitted_for s cdf fuel) (vint_keys s pro vints) new"
  using assms
proof (induction vints arbitrary: rows)
  case Nil
  then show ?case by (simp add: vint_keys_def)
next
  case (Cons vint vints)
  from Cons.prems obtain mid where
    inner: "per_loop s cdf fuel pro vint (periods s) rows = Inr mid"
    and rest: "vint_loop s cdf fuel pro vints mid = Inr rows'"
    by (auto simp: and_then_def split: sum.splits)
  from per_loop_Inr[OF inner] obtain new1 where
    n1: "mid = rows @ new1"
    "list_all2 (emitted_for s cdf fuel) (per_keys s pro vint (periods s)) new1"
    by blast
  from Cons.IH[OF rest] obtain new2 where
    n2: "rows' = mid @ new2"
    "list_all2 (emitted_for s cdf fuel) (vint_keys s pro vints) new2"
    by blast
  from n1 n2 show ?case
    by (auto simp: vint_keys_def intro!: exI[of _ "new1 @ new2"] list_all2_appendI)
qed

lemma pro_loop_Inr:
  assumes "pro_loop s cdf fuel pros rows = Inr rows'"
  shows "\<exists>new. rows' = rows @ new \<and>
           list_all2 (emitted_for s cdf fuel) (pro_keys s pros) new"
  using assms
proof (induction pros arbitrary: rows)
  case Nil
  then show ?case by (simp add: pro_keys_def)
next
  case (Cons pro pros)
  show ?case
  proof (cases "pro = ''CAN''")
    case True
    with Cons show ?thesis by (simp add: pro_keys_def)
  next
    case False
    with Cons.prems obtain mid where
      inner: "vint_loop s cdf fuel pro (periods s) rows = Inr mid"
      and rest: "pro_loop s cdf fuel pros mid = Inr rows'"
      by (auto simp: and_then_def split: sum.splits)
    from vint_loop_Inr[OF inner] obtain new1 where
      n1: "mid = rows @ new1"
      "list_all2 (emitted_for s cdf fuel) (vint_keys s pro (periods s)) new1"
      by blast
    from Cons.IH[OF rest] obtain new2 where
      n2: "rows' = mid @ new2"
      "list_all2 (emitted_for s cdf fuel) (pro_keys s pros) new2"
      by blast
    from n1 n2 False show ?thesis
      by (auto simp: pro_keys_def intro!: exI[of _ "new1 @ new2"] list_all2_appendI)
  qed
qed

lemma new_rows_emitted:
  assumes "new_rows s = Inr rows"
  shows "list_all2 (emitted_for s (cost_df s) (fuel_copy (fuel_df s))) (combinations s) rows"
  using pro_loop_Inr[of s "cost_df s" "fuel_copy (fuel_df s)" "province_list s" "[]" rows] assms
  by (simp add: new_rows_def combinations_def Let_def)

lemma emitted_for_key: "emitted_for s cdf fuel k row \<Longrightarrow> row_key row = Some k"
  by (cases k) (auto simp: emitted_for_simp dest: make_row_shape(1))

lemma list_all2_keys:
  "list_all2 (emitted_for s cdf fuel) ks rows \<Longrightarrow> map row_key rows = map Some ks"
  by (induction ks rows rule: list_all2_induct) (auto dest: emitted_for_key)

lemma new_rows_keys:
  "new_rows s = Inr rows \<Longrightarrow> map row_key rows = map Some (combinations s)"
  by (rule list_all2_keys[OF new_rows_emitted])

subsection \<open>The example input\<close>

lemma fuel_copy_example:
  "fuel_copy (fuel_df example_state) =
     \<lparr>df_columns = [''Commodity'', ''notes'', ''source''], df_rows = [[''T_dsl'', ''EIA'', []]]\<rparr>"
  by (simp add: example_state_def fuel_copy_def ensure_column_def drop_duplicated_columns_def
      select_mask_def)

lemmas row_eval = excluded_def make_row_def getitem_def and_then_simps strip_def is_space_def
  calc_value_def lower_eval safe_base_from_cost_def fuel_notes_def cell_at_def

lemma new_rows_example: "new_rows example_state = Inr example_rows"
  by (simp add: new_rows_def fuel_copy_example)
     (simp add: example_state_def example_rows_def example_row_def row_eval)

subsection \<open>The combinations\<close>

lemma tech_keys_iff:
  "k \<in> set (tech_keys pro vint per techs) \<longleftrightarrow>
   (\<exists>tech. k = (pro, per, tech, vint) \<and> tech \<in> set techs \<and> \<not> excluded tech)"
  by (auto simp: tech_keys_def)

lemma per_keys_iff:
  "k \<in> set (per_keys s pro vint pers) \<longleftrightarrow>
   (\<exists>per tech. k = (pro, per, tech, vint) \<and> per \<in> set pers \<and> \<not> per < vint \<and>
      tech \<in> set (tech_list s) \<and> \<not> excluded tech)"
  by (auto simp: per_keys_def tech_keys_iff)

lemma vint_keys_iff:
  "k \<in> set (vint_keys s pro vints) \<longleftrightarrow>
   (\<exists>vint per tech. k = (pro, per, tech, vint) \<and> vint \<in> set vints \<and>
      per \<in> set (periods s) \<and> \<not> per < vint \<and> tech \<in> set (tech_list s) \<and> \<not> excluded tech)"
  by (auto simp: vint_keys_def per_keys_iff)

lemma pro_keys_iff:
  "k \<in> set (pro_keys s pros) \<longleftrightarrow>
   (\<exists>pro vint per tech. k = (pro, per, tech, vint) \<and> pro \<in> set pros \<and> pro \<noteq> ''CAN'' \<and>
      vint \<in> set (periods s) \<and> per \<in> set (periods s) \<and> \<not> per < vint \<and>
      tech \<in> set (tech_list s) \<and> \<not> excluded tech)"
  by (auto simp: pro_keys_def vint_keys_iff)

lemma combinations_iff:
  "(pro, per, tech, vint) \<in> set (combinations s) \<longleftrightarrow>
   pro \<in> set (province_list s) \<and> pro \<noteq> ''CAN'' \<and> vint \<in> set (periods s) \<and>
   per \<in> set (periods s) \<and> \<not> per < vint \<and> tech \<in> set (tech_list s) \<and> \<not> excluded tech"
  by (auto simp: combinations_def pro_keys_iff)

lemma distinct_concat_map:
  assumes "distinct xs"
    and "\<And>x. x \<in> set xs \<Longrightarrow> distinct (f x)"
    and "\<And>x y. x \<in> set xs \<Longrightarrow> y \<in> set xs \<Longrightarrow> x \<noteq> y \<Longrightarrow> set (f x) \<inter> set (f y) = {}"
  shows "distinct (concat (map f xs))"
  using assms
proof (induction xs)
  case Nil
  then show ?case by simp
next
  case (Cons x xs)
  have "distinct (concat (map f xs))"
    using Cons by simp
  moreover have "distinct (f x)"
    using Cons.prems(2) by simp
  moreover have "set (f x) \<inter> set (f y) = {}" if "y \<in> set xs" for y
    using Cons.prems(1,3) that by auto
  ultimately show ?case by auto
qed

lemma distinct_tech_keys: "distinct techs \<Longrightarrow> distinct (tech_keys pro vint per techs)"
  by (simp add: tech_keys_def distinct_map inj_on_def)

lemma distinct_per_keys:
  assumes "distinct pers" "distinct (tech_list s)"
  shows "distinct (per_keys s pro vint pers)"
  unfolding per_keys_def
proof (rule distinct_concat_map)
  show "distinct (filter (\<lambda>per. \<not> per < vint) pers)"
    using assms(1) by simp
  show "distinct (tech_keys pro vint x (tech_list s))" for x
    using assms(2) by (rule distinct_tech_keys)
  show "set (tech_keys pro vint x (tech_list s)) \<inter> set (tech_keys pro vint y (tech_list s)) = {}"
    if "x \<noteq> y" for x y
    using that by (auto simp: tech_keys_iff)
qed

lemma distinct_vint_keys:
  assumes "distinct vints" "distinct (periods s)" "distinct (tech_list s)"
  shows "distinct (vint_keys s pro vints)"
  unfolding vint_keys_def
proof (rule distinct_concat_map)
  show "distinct vints" by (rule assms(1))
  show "distinct (per_keys s pro x (periods s))" for x
    using assms(2,3) by (rule distinct_per_keys)
  show "set (per_keys s pro x (periods s)) \<inter> set (per_keys s pro y (periods s)) = {}"
    if "x \<noteq> y" for x y
    using that by (auto simp: per_keys_iff)
qed

lemma distinct_pro_keys:
  assumes "distinct pros" "distinct (periods s)" "distinct (tech_list s)"
  shows "distinct (pro_keys s pros)"
  unfolding pro_keys_def
proof (rule distinct_concat_map)
  show "distinct (filter (\<lambda>pro. pro \<noteq> ''CAN'') pros)"
    using assms(1) by simp
  show "distinct (vint_keys s x (periods s))" for x
    using assms(2,2,3) by (rule distinct_vint_keys)
  show "set (vint_keys s x (periods s)) \<inter> set (vint_keys s y (periods s)) = {}"
    if "x \<noteq> y" for x y
    using that by (auto simp: vint_keys_iff)
qed

lemma distinct_combinations:
  "distinct (province_list s) \<Longrightarrow> distinct (periods s) \<Longrightarrow> distinct (tech_list s) \<Longrightarrow>
   distinct (combinations s)"
  by (simp add: combinations_def distinct_pro_keys)

lemma count_in_distinct:
  assumes "distinct ks" "k \<in> set ks" "map row_key rows = map Some ks"
  shows "length (filter (\<lambda>row. row_key row = Some k) rows) = 1"
proof -
  have "length (filter (\<lambda>row. row_key row = Some k) rows) =
        length (filter (\<lambda>x. x = Some k) (map row_key rows))"
    by (simp add: filter_map comp_def)
  also have "\<dots> = length (filter (\<lambda>x. x = k) ks)"
    by (simp add: assms(3) filter_map comp_def)
  also have "\<dots> = card ({x. x = k} \<inter> set ks)"
    using assms(1) by (rule distinct_length_filter)
  also have "{x. x = k} \<inter> set ks = {k}"
    using assms(2) by auto
  finally show ?thesis by simp
qed

lemma list_all2_left:
  "list_all2 P xs ys \<Longrightarrow> x \<in> set xs \<Longrightarrow> \<exists>y \<in> set ys. P x y"
  by (induction xs ys rule: list_all2_induct) auto

lemma list_all2_right:
  "list_all2 P xs ys \<Longrightarrow> y \<in> set ys \<Longrightarrow> \<exists>x \<in> set xs. P x y"
  by (induction xs ys rule: list_all2_induct) auto

subsection \<open>The rows of a pass\<close>

text \<open>
  Claim C3, as amended. Whenever the pass gathers its rows without an error: every row
  is the row of a combination (region, period, technology, vintage) whose region is not
  \<open>CAN\<close>, whose period is not before its vintage and whose technology is not
  excluded; and when the region list, the period list and the technology catalog are each
  free of repetitions, no two rows have the same combination and every combination of a
  listed region other than \<open>CAN\<close>, a listed vintage, a listed period not before it and a
  listed technology that is not excluded has exactly one row. (The loops remove no
  repetitions: with a region, a period or a technology listed twice the rows repeat, as
  the counterexample shows.)
\<close>

theorem one_row_per_combination:
  assumes "new_rows s = Inr rows"
  shows "(\<forall>row \<in> set rows. \<exists>region per tech vint.
            row_key row = Some (region, per, tech, vint) \<and> \<not> per < vint \<and> region \<noteq> ''CAN'' \<and>
            \<not> excluded tech)
       \<and> (distinct (province_list s) \<and> distinct (periods s) \<and> distinct (tech_list s) \<longrightarrow>
            distinct (map row_key rows) \<and>
            (\<forall>region vint per tech.
               region \<in> set (province_list s) \<and> region \<noteq> ''CAN'' \<and> vint \<in> set (periods s) \<and>
               per \<in> set (periods s) \<and> vint \<le> per \<and> tech \<in> set (tech_list s) \<and>
               \<not> excluded tech \<longrightarrow>
               length (filter (\<lambda>row. row_key row = Some (region, per, tech, vint)) rows) = 1))"
proof (intro conjI ballI impI allI)
  note all2 = new_rows_emitted[OF assms]
  note keys = new_rows_keys[OF assms]
  fix row assume "row \<in> set rows"
  with list_all2_right[OF all2] obtain k where
    k: "k \<in> set (combinations s)" "emitted_for s (cost_df s) (fuel_copy (fuel_df s)) k row"
    by blast
  obtain region per tech vint where kk: "k = (region, per, tech, vint)"
    by (cases k) auto
  from k(2) have "row_key row = Some k" by (rule emitted_for_key)
  with k(1) kk show "\<exists>region per tech vint.
            row_key row = Some (region, per, tech, vint) \<and> \<not> per < vint \<and> region \<noteq> ''CAN'' \<and>
            \<not> excluded tech"
    by (auto simp: combinations_iff)
next
  assume d: "distinct (province_list s) \<and> distinct (periods s) \<and> distinct (tech_list s)"
  then have dc: "distinct (combinations s)" by (simp add: distinct_combinations)
  then show "distinct (map row_key rows)"
    by (simp add: new_rows_keys[OF assms] distinct_map)
  fix region vint per tech
  assume "region \<in> set (province_list s) \<and> region \<noteq> ''CAN'' \<and> vint \<in> set (periods s) \<and>
               per \<in> set (periods s) \<and> vint \<le> per \<and> tech \<in> set (tech_list s) \<and>
               \<not> excluded tech"
  then have "(region, per, tech, vint) \<in> set (combinations s)"
    by (simp add: combinations_iff)
  with dc show "length (filter (\<lambda>row. row_key row = Some (region, per, tech, vint)) rows) = 1"
    by (rule count_in_distinct) (rule new_rows_keys[OF assms])
qed

theorem one_row_per_combination_witness:
  "new_rows example_state = Inr example_rows \<and>
   distinct (map row_key example_rows) \<and>
   length (filter (\<lambda>row. row_key row = Some (''ON'', 2030, ''F_T_DSL'', 2025)) example_rows) = 1"
proof -
  have d: "distinct (province_list example_state) \<and> distinct (periods example_state) \<and>
           distinct (tech_list example_state)"
    by (simp add: example_state_def)
  have h: "''ON'' \<in> set (province_list example_state) \<and> ''ON'' \<noteq> ''CAN'' \<and>
           2025 \<in> set (periods example_state) \<and> 2030 \<in> set (periods example_state) \<and>
           (2025::int) \<le> 2030 \<and> ''F_T_DSL'' \<in> set (tech_list example_state) \<and>
           \<not> excluded ''F_T_DSL''"
    by (simp add: example_state_def excluded_def)
  from one_row_per_combination [OF new_rows_example] d h
  have "distinct (map row_key example_rows)"
    and "length (filter (\<lambda>row. row_key row = Some (''ON'', 2030, ''F_T_DSL'', 2025))
           example_rows) = 1"
    by blast+
  with new_rows_example show ?thesis by simp
qed

text \<open>
  The claim as it was stated fails for a region list that names a region twice: both
  visits emit the same row.
\<close>

theorem repeated_region_counterexample:
  "new_rows repeated_region_state =
     Inr [example_row 2030 ''F_T_DSL'' 2030 10.9725 ''EIA'',
          example_row 2030 ''F_T_DSL'' 2030 10.9725 ''EIA''] \<and>
   \<not> distinct (map row_key [example_row 2030 ''F_T_DSL'' 2030 10.9725 ''EIA'',
                             example_row 2030 ''F_T_DSL'' 2030 10.9725 ''EIA'']) \<and>
   length (filter (\<lambda>row. row_key row = Some (''ON'', 2030, ''F_T_DSL'', 2030))
             [example_row 2030 ''F_T_DSL'' 2030 10.9725 ''EIA'',
              example_row 2030 ''F_T_DSL'' 2030 10.9725 ''EIA'']) = 2"
proof -
  have f: "fuel_copy (fuel_df repeated_region_state) = fuel_copy (fuel_df example_state)"
    by (simp add: repeated_region_state_def)
  have "new_rows repeated_region_state =
     Inr [example_row 2030 ''F_T_DSL'' 2030 10.9725 ''EIA'',
          example_row 2030 ''F_T_DSL'' 2030 10.9725 ''EIA'']"
    by (simp add: new_rows_def f fuel_copy_example)
       (simp add: repeated_region_state_def example_state_def example_row_def row_eval)
  then show ?thesis by (simp add: example_row_def)
qed

subsection \<open>Missing entries\<close>

lemma make_row_unmapped:
  "mapping s tech = None \<Longrightarrow> make_row s cdf fuel pro vint per tech = Inl (KeyError tech)"
  by (simp add: make_row_def getitem_def and_then_simps)

lemma make_row_no_region:
  "dict_id s pro = None \<Longrightarrow> make_row s cdf fuel pro vint per tech \<noteq> Inr row"
  by (auto simp: make_row_def and_then_def getitem_def Let_def
           split: sum.splits option.splits prod.splits)

lemma new_rows_fails:
  assumes "(pro, per, tech, vint) \<in> set (combinations s)"
    and "\<And>row. make_row s (cost_df s) (fuel_copy (fuel_df s)) pro vint per tech \<noteq> Inr row"
  shows "\<exists>e. new_rows s = Inl e"
proof (cases "new_rows s")
  case (Inl e)
  then show ?thesis by blast
next
  case (Inr rows)
  from list_all2_left[OF new_rows_emitted[OF Inr] assms(1)] assms(2)
  show ?thesis by (auto simp: emitted_for_simp)
qed

lemma build_fails: "new_rows s = Inl e \<Longrightarrow> build_costvariable s = (Inl e, s)"
  by (simp add: build_costvariable_def)

text \<open>
  Claim C7, as amended. Let the period list be non-empty. If a technology of the catalog
  that is not excluded is absent from the name mapping and the region list has a region
  other than \<open>CAN\<close>, or a region other than \<open>CAN\<close> is absent from the region map and
  the catalog has a technology that is not excluded, then the pass raises an error and
  leaves the state as it was. (The entries are looked up inside the innermost loop only:
  when no combination is enumerated nothing is looked up, as the counterexample shows.)
\<close>

theorem missing_entry_aborts:
  assumes "periods s \<noteq> []"
    and "(\<exists>tech \<in> set (tech_list s). \<not> excluded tech \<and> mapping s tech = None) \<and>
           (\<exists>pro \<in> set (province_list s). pro \<noteq> ''CAN'')
         \<or> (\<exists>pro \<in> set (province_list s). pro \<noteq> ''CAN'' \<and> dict_id s pro = None) \<and>
           (\<exists>tech \<in> set (tech_list s). \<not> excluded tech)"
  shows "\<exists>e. build_costvariable s = (Inl e, s)"
proof -
  from assms(1) obtain p where p: "p \<in> set (periods s)"
    by (cases "periods s") auto
  from assms(2) obtain pro tech where
    k: "pro \<in> set (province_list s)" "pro \<noteq> ''CAN''" "tech \<in> set (tech_list s)"
       "\<not> excluded tech"
    and miss: "mapping s tech = None \<or> dict_id s pro = None"
    by blast
  from k p have "(pro, p, tech, p) \<in> set (combinations s)"
    by (simp add: combinations_iff)
  moreover have "make_row s (cost_df s) (fuel_copy (fuel_df s)) pro p p tech \<noteq> Inr row" for row
    using miss by (auto simp: make_row_unmapped make_row_no_region)
  ultimately obtain e where "new_rows s = Inl e"
    using new_rows_fails by blast
  then show ?thesis by (auto dest: build_fails)
qed

lemma fuel_copy_update [simp]:
  "fuel_df unmapped_tech_state = fuel_df example_state"
  "fuel_df unmapped_region_state = fuel_df example_state"
  "fuel_df no_period_state = fuel_df example_state"
  by (simp_all add: unmapped_tech_state_def unmapped_region_state_def no_period_state_def)

theorem missing_entry_aborts_witness:
  "build_costvariable unmapped_tech_state = (Inl (KeyError ''F_T_GSL''), unmapped_tech_state) \<and>
   build_costvariable unmapped_region_state = (Inl (KeyError ''QC''), unmapped_region_state)"
proof -
  have t: "periods unmapped_tech_state \<noteq> []"
    "(\<exists>tech \<in> set (tech_list unmapped_tech_state).
        \<not> excluded tech \<and> mapping unmapped_tech_state tech = None) \<and>
     (\<exists>pro \<in> set (province_list unmapped_tech_state). pro \<noteq> ''CAN'')"
    by (simp_all add: unmapped_tech_state_def example_state_def excluded_def)
  have r: "periods unmapped_region_state \<noteq> []"
    "(\<exists>pro \<in> set (province_list unmapped_region_state).
        pro \<noteq> ''CAN'' \<and> dict_id unmapped_region_state pro = None) \<and>
     (\<exists>tech \<in> set (tech_list unmapped_region_state). \<not> excluded tech)"
    by (simp_all add: unmapped_region_state_def example_state_def excluded_def)
  from missing_entry_aborts [OF t(1) disjI1 [OF t(2)]]
  obtain e where e: "build_costvariable unmapped_tech_state = (Inl e, unmapped_tech_state)"
    by blast
  from missing_entry_aborts [OF r(1) disjI2 [OF r(2)]]
  obtain e' where e': "build_costvariable unmapped_region_state = (Inl e', unmapped_region_state)"
    by blast
  have "new_rows unmapped_tech_state = Inl (KeyError ''F_T_GSL'')"
    by (simp add: new_rows_def fuel_copy_example)
       (simp add: unmapped_tech_state_def example_state_def row_eval)
  with e have "e = KeyError ''F_T_GSL''"
    by (simp add: build_costvariable_def)
  moreover have "new_rows unmapped_region_state = Inl (KeyError ''QC'')"
    by (simp add: new_rows_def fuel_copy_example)
       (simp add: unmapped_region_state_def example_state_def row_eval)
  with e' have "e' = KeyError ''QC''"
    by (simp add: build_costvariable_def)
  ultimately show ?thesis using e e' by simp
qed

text \<open>
  The claim as it was stated fails for an empty period list: the technology is absent
  from the name mapping and the region from the region map, and the pass returns the
  output tables as they were, without an error.
\<close>

theorem no_period_counterexample:
  "''F_T_DSL'' \<in> set (tech_list no_period_state) \<and> \<not> excluded ''F_T_DSL'' \<and>
   mapping no_period_state ''F_T_DSL'' = None \<and>
   ''ON'' \<in> set (province_list no_period_state) \<and> ''ON'' \<noteq> ''CAN'' \<and>
   dict_id no_period_state ''ON'' = None \<and>
   build_costvariable no_period_state = (Inr (comb_dict no_period_state), no_period_state)"
proof -
  have "new_rows no_period_state = Inr []"
    by (simp add: new_rows_def) (simp add: no_period_state_def and_then_simps)
  then have "build_costvariable no_period_state =
      (Inr (comb_dict no_period_state), no_period_state)"
    by (simp add: build_costvariable_def)
  then show ?thesis
    by (simp add: no_period_state_def excluded_def)
qed

subsection \<open>What the pass writes\<close>



lemma calc_value_case_insensitive:
  assumes e: "lower n = lower n'"
    and m: "list_ex (\<lambda>t. substr_in t (lower n))
     [''bio'', ''wood'', ''u_nat'', ''u_enr'', ''eth'', ''rdsl'', ''spk'', ''lng'', ''cng'',
      ''ngl'', ''lpg'', ''e_coal'', ''e_gsl'', ''r_oil'', ''c_h2'', ''r_h2'', ''i_pcoke'',
      ''i_coke'', ''a_gsl'', ''a_ng'', ''a_dsl'', ''a_prop'', ''mdo'']"
  shows "calc_value tech n p cost conf mm cur d_old d_new eth rdsl spk =
         calc_value tech n' p cost conf mm cur d_old d_new eth rdsl spk"
  using m by (simp add: calc_value_def Let_def e) blast

text \<open>
  Claim C10. The exclusion test reads the raw technology identifier: a technology whose
  identifier contains \<open>F_IMP\<close>, \<open>ELC\<close> or \<open>OTH\<close> as written gets no row,
  while one that contains none of them (it may contain \<open>elc\<close> or \<open>oth\<close> in lower
  case) gets, for every region other than \<open>CAN\<close> and every vintage and period with the
  period not before the vintage, the row the loop body makes, with a price. The
  resolver, in contrast, tests the lowercased name: two names with the same lowercase
  form that match a category token are priced alike.
\<close>

theorem exclusion_is_case_sensitive:
  "(new_rows s = Inr rows \<longrightarrow>
      (substr_in ''F_IMP'' tech \<or> substr_in ''ELC'' tech \<or> substr_in ''OTH'' tech \<longrightarrow>
         (\<forall>row \<in> set rows. \<forall>region per vint. row_key row \<noteq> Some (region, per, tech, vint))) \<and>
      (\<not> (substr_in ''F_IMP'' tech \<or> substr_in ''ELC'' tech \<or> substr_in ''OTH'' tech) \<and>
       tech \<in> set (tech_list s) \<and> region \<in> set (province_list s) \<and> region \<noteq> ''CAN'' \<and>
       vint \<in> set (periods s) \<and> per \<in> set (periods s) \<and> vint \<le> per \<longrightarrow>
         (\<exists>row \<in> set rows.
            row_key row = Some (region, per, tech, vint) \<and>
            make_row s (cost_df s) (fuel_copy (fuel_df s)) region vint per tech = Inr row \<and>
            (\<exists>v. row_value row = Some v))))
   \<and> excluded ''F_ELC'' \<and> excluded ''F_OTH'' \<and> excluded ''F_IMP_NG''
   \<and> \<not> excluded ''F_elc'' \<and> \<not> excluded ''F_oth'' \<and> \<not> excluded ''f_imp_ng''
   \<and> (lower n = lower n' \<and>
       list_ex (\<lambda>t. substr_in t (lower n))
         [''bio'', ''wood'', ''u_nat'', ''u_enr'', ''eth'', ''rdsl'', ''spk'', ''lng'', ''cng'',
          ''ngl'', ''lpg'', ''e_coal'', ''e_gsl'', ''r_oil'', ''c_h2'', ''r_h2'', ''i_pcoke'',
          ''i_coke'', ''a_gsl'', ''a_ng'', ''a_dsl'', ''a_prop'', ''mdo''] \<longrightarrow>
       calc_value tech' n p cost conf mm cur d_old d_new eth rdsl spk =
       calc_value tech' n' p cost conf mm cur d_old d_new eth rdsl spk)"
proof -
  have a: "\<forall>row \<in> set rows. \<forall>region per vint. row_key row \<noteq> Some (region, per, tech, vint)"
    if rows: "new_rows s = Inr rows"
      and ex: "substr_in ''F_IMP'' tech \<or> substr_in ''ELC'' tech \<or> substr_in ''OTH'' tech"
  proof (intro ballI allI notI)
    fix row region per vint
    assume row: "row \<in> set rows" and key: "row_key row = Some (region, per, tech, vint)"
    from list_all2_right[OF new_rows_emitted[OF rows] row] obtain k where
      k: "k \<in> set (combinations s)" "emitted_for s (cost_df s) (fuel_copy (fuel_df s)) k row"
      by blast
    from emitted_for_key[OF k(2)] key have "k = (region, per, tech, vint)" by simp
    with k(1) have "\<not> excluded tech" by (simp add: combinations_iff)
    with ex show False by (simp add: excluded_def)
  qed
  have b: "\<exists>row \<in> set rows.
            row_key row = Some (region, per, tech, vint) \<and>
            make_row s (cost_df s) (fuel_copy (fuel_df s)) region vint per tech = Inr row \<and>
            (\<exists>v. row_value row = Some v)"
    if rows: "new_rows s = Inr rows"
      and h: "\<not> (substr_in ''F_IMP'' tech \<or> substr_in ''ELC'' tech \<or> substr_in ''OTH'' tech) \<and>
       tech \<in> set (tech_list s) \<and> region \<in> set (province_list s) \<and> region \<noteq> ''CAN'' \<and>
       vint \<in> set (periods s) \<and> per \<in> set (periods s) \<and> vint \<le> per"
  proof -
    from h have "(region, per, tech, vint) \<in> set (combinations s)"
      by (simp add: combinations_iff excluded_def)
    from list_all2_left[OF new_rows_emitted[OF rows] this] obtain row where
      row: "row \<in> set rows"
        "make_row s (cost_df s) (fuel_copy (fuel_df s)) region vint per tech = Inr row"
      by (auto simp: emitted_for_simp)
    with make_row_shape[OF row(2)] show ?thesis by blast
  qed
  have c: "excluded ''F_ELC'' \<and> excluded ''F_OTH'' \<and> excluded ''F_IMP_NG''
      \<and> \<not> excluded ''F_elc'' \<and> \<not> excluded ''F_oth'' \<and> \<not> excluded ''f_imp_ng''"
    by (simp add: excluded_def)
  from a b c calc_value_case_insensitive show ?thesis by blast
qed

theorem exclusion_is_case_sensitive_witness:
  "new_rows example_state = Inr example_rows \<and>
   substr_in ''ELC'' ''F_ELC'' \<and>
   list_all (\<lambda>row. row_key row \<noteq> Some (''ON'', 2030, ''F_ELC'', 2025)) example_rows \<and>
   \<not> (substr_in ''F_IMP'' ''F_elc_wood'' \<or> substr_in ''ELC'' ''F_elc_wood'' \<or>
      substr_in ''OTH'' ''F_elc_wood'') \<and>
   list_ex (\<lambda>row. row_key row = Some (''ON'', 2030, ''F_elc_wood'', 2025) \<and>
                   row_value row = Some 4.158) example_rows \<and>
   lower ''WOOD'' = lower ''Wood'' \<and>
   calc_value ''F_elc_wood'' ''WOOD'' 2030 [] [''b_price'' \<mapsto> 4] 1.1 1.05 0.9 0.95 1 2 3 =
   calc_value ''F_elc_wood'' ''Wood'' 2030 [] [''b_price'' \<mapsto> 4] 1.1 1.05 0.9 0.95 1 2 3"
  using exclusion_is_case_sensitive [where s = example_state and rows = example_rows
      and tech = "''F_ELC''" and region = "''ON''" and per = 2030 and vint = 2025
      and n = "''WOOD''" and n' = "''Wood''" and tech' = "''F_elc_wood''" and p = 2030
      and cost = "[]" and conf = "[''b_price'' \<mapsto> 4]" and mm = "1.1" and cur = "1.05"
      and d_old = "0.9" and d_new = "0.95" and eth = 1 and rdsl = 2 and spk = 3]
    exclusion_is_case_sensitive [where s = example_state and rows = example_rows
      and tech = "''F_elc_wood''" and region = "''ON''" and per = 2030 and vint = 2025
      and n = "''WOOD''" and n' = "''Wood''" and tech' = "''F_elc_wood''" and p = 2030
      and cost = "[]" and conf = "[''b_price'' \<mapsto> 4]" and mm = "1.1" and cur = "1.05"
      and d_old = "0.9" and d_new = "0.95" and eth = 1 and rdsl = 2 and spk = 3]
  by (simp add: new_rows_example lower_eval example_rows_def example_row_def)

end
